theory Spec2Isabelle
  imports Main "HOL-Library.Multiset"
begin

section \<open>The persistent store: one table, one connection\<close>

text \<open>
  The server keeps its links in a single SQLite table, created by \<^verbatim>\<open>initDB\<close>:
  \<^verbatim>\<open>
  CREATE TABLE IF NOT EXISTS links (
      shortcode TEXT PRIMARY KEY,
      url TEXT NOT NULL,
      created_at DATETIME DEFAULT CURRENT_TIMESTAMP);
  \<close>
  A row of that table is a record of its three columns. The value of
  \<^verbatim>\<open>CURRENT_TIMESTAMP\<close> is a text of the form \<^verbatim>\<open>YYYY-MM-DD HH:MM:SS\<close>, whose
  order as text is the order of the seconds it names; it is modelled by the number of that
  second.
\<close>

type_synonym timestamp = nat

record link_row =
  col_shortcode :: string
  col_url :: string
  col_created_at :: timestamp

text \<open>
  The database handle \<^verbatim>\<open>*sql.DB\<close>. \<open>tbl_links\<close> holds the rows of the table in
  rowid order. Every call of the driver can fail (closed handle, I/O error, locked file);
  \<open>fault\<close> is the message of the error the driver reports for the statements sent to it,
  \<open>None\<close> while the connection works. A failed statement changes nothing.
\<close>

record sql_db =
  tbl_links :: "link_row list"
  fault :: "string option"

text \<open>
  Go's \<^verbatim>\<open>error\<close> values that occur in the server: the sentinel \<^verbatim>\<open>sql.ErrNoRows\<close>,
  the errors the server makes itself with \<^verbatim>\<open>fmt.Errorf\<close>, and the errors that come out
  of \<^verbatim>\<open>database/sql\<close> and the SQLite driver. A \<^verbatim>\<open>nil\<close> error is \<open>None\<close>.
\<close>

datatype error = ErrNoRows | Errorf string | DriverError string

fun Error :: "error \<Rightarrow> string" where
  "Error ErrNoRows = ''sql: no rows in result set''"
| "Error (Errorf msg) = msg"
| "Error (DriverError msg) = msg"

subsection \<open>The four statements the server sends\<close>

text \<open>
  \<^verbatim>\<open>INSERT OR REPLACE INTO links (shortcode, url) VALUES (?, ?)\<close>: a row whose primary
  key equals the new one is deleted, then the new row is inserted at the next rowid; the
  column \<open>created_at\<close> is not listed, so the new row takes its default, the timestamp of
  the moment the statement runs.
\<close>

definition Exec_insert_or_replace ::
    "sql_db \<Rightarrow> timestamp \<Rightarrow> string \<Rightarrow> string \<Rightarrow> error option \<times> sql_db" where
  "Exec_insert_or_replace d now shortcode url =
     (case fault d of
        Some msg \<Rightarrow> (Some (DriverError msg), d)
      | None \<Rightarrow>
          (None,
           d\<lparr>tbl_links := filter (\<lambda>r. col_shortcode r \<noteq> shortcode) (tbl_links d) @
                        [\<lparr>col_shortcode = shortcode, col_url = url, col_created_at = now\<rparr>]\<rparr>))"

text \<open>
  \<^verbatim>\<open>SELECT url FROM links WHERE shortcode = ?\<close> through \<^verbatim>\<open>QueryRow(...).Scan(&url)\<close>:
  the first matching row is scanned into \<open>url\<close>; with no row \<^verbatim>\<open>Scan\<close> returns
  \<^verbatim>\<open>sql.ErrNoRows\<close> and leaves \<open>url\<close> at its zero value.
\<close>

definition QueryRow_select_url :: "sql_db \<Rightarrow> string \<Rightarrow> string \<times> error option" where
  "QueryRow_select_url d shortcode =
     (case fault d of
        Some msg \<Rightarrow> ('''', Some (DriverError msg))
      | None \<Rightarrow>
          (case find (\<lambda>r. col_shortcode r = shortcode) (tbl_links d) of
             None \<Rightarrow> ('''', Some ErrNoRows)
           | Some r \<Rightarrow> (col_url r, None)))"

text \<open>
  \<^verbatim>\<open>SELECT shortcode, url FROM links ORDER BY created_at DESC\<close>. SQL leaves the order
  of rows with equal keys open; the model takes the stable one (rows with the same
  timestamp stay in rowid order). No theorem below depends on that choice.
\<close>

fun place_desc :: "link_row \<Rightarrow> link_row list \<Rightarrow> link_row list" where
  "place_desc r [] = [r]"
| "place_desc r (x # xs) =
     (if col_created_at x \<le> col_created_at r then r # x # xs else x # place_desc r xs)"

definition order_by_created_at_desc :: "link_row list \<Rightarrow> link_row list" where
  "order_by_created_at_desc rs = foldr place_desc rs []"

definition Query_select_all :: "sql_db \<Rightarrow> link_row list \<times> error option" where
  "Query_select_all d =
     (case fault d of
        Some msg \<Rightarrow> ([], Some (DriverError msg))
      | None \<Rightarrow> (order_by_created_at_desc (tbl_links d), None))"

text \<open>
  \<^verbatim>\<open>DELETE FROM links WHERE shortcode = ?\<close>; the result carries the number of rows
  deleted (\<^verbatim>\<open>RowsAffected\<close>, which the SQLite driver never fails to give).
\<close>

definition Exec_delete :: "sql_db \<Rightarrow> string \<Rightarrow> (nat \<times> error option) \<times> sql_db" where
  "Exec_delete d shortcode =
     (case fault d of
        Some msg \<Rightarrow> ((0, Some (DriverError msg)), d)
      | None \<Rightarrow>
          ((length (filter (\<lambda>r. col_shortcode r = shortcode) (tbl_links d)), None),
           d\<lparr>tbl_links := filter (\<lambda>r. col_shortcode r \<noteq> shortcode) (tbl_links d)\<rparr>))"

section \<open>The link repository\<close>

record LinkForwarder =
  db :: sql_db

record Link =
  Shortcode :: string
  URL :: string

text \<open>Go's \<^verbatim>\<open>strings.HasPrefix(s, prefix)\<close>.\<close>

definition HasPrefix :: "string \<Rightarrow> string \<Rightarrow> bool" where
  "HasPrefix s p \<longleftrightarrow> length p \<le> length s \<and> take (length p) s = p"

text \<open>
  \<^verbatim>\<open>saveLink\<close>. The clock is the environment's: \<open>now\<close> is the second in which the
  statement runs.
\<close>

definition saveLink ::
    "LinkForwarder \<Rightarrow> timestamp \<Rightarrow> string \<Rightarrow> string \<Rightarrow> error option \<times> LinkForwarder" where
  "saveLink lf now shortcode url =
     (let url' = (if \<not> HasPrefix url ''http://'' \<and> \<not> HasPrefix url ''https://''
                  then ''https://'' @ url else url);
          (err, d) = Exec_insert_or_replace (db lf) now shortcode url'
      in (err, lf\<lparr>db := d\<rparr>))"

definition getURL :: "LinkForwarder \<Rightarrow> string \<Rightarrow> string \<times> error option" where
  "getURL lf shortcode =
     (let (url, err) = QueryRow_select_url (db lf) shortcode
      in if err = Some ErrNoRows then ('''', Some (Errorf ''shortcode not found''))
         else (url, err))"

text \<open>The loop \<^verbatim>\<open>for rows.Next() { ...; links = append(links, link) }\<close>.\<close>

fun scan_rows :: "link_row list \<Rightarrow> Link list \<Rightarrow> Link list" where
  "scan_rows [] links = links"
| "scan_rows (r # rs) links =
     scan_rows rs (links @ [\<lparr>Shortcode = col_shortcode r, URL = col_url r\<rparr>])"

definition getAllLinks :: "LinkForwarder \<Rightarrow> Link list \<times> error option" where
  "getAllLinks lf =
     (case Query_select_all (db lf) of
        (rows, Some err) \<Rightarrow> ([], Some err)
      | (rows, None) \<Rightarrow> (scan_rows rows [], None))"

definition deleteLink :: "LinkForwarder \<Rightarrow> string \<Rightarrow> error option \<times> LinkForwarder" where
  "deleteLink lf shortcode =
     (case Exec_delete (db lf) shortcode of
        ((affected, Some err), d) \<Rightarrow> (Some err, lf\<lparr>db := d\<rparr>)
      | ((affected, None), d) \<Rightarrow>
          (if affected = 0 then (Some (Errorf ''shortcode not found''), lf\<lparr>db := d\<rparr>)
           else (None, lf\<lparr>db := d\<rparr>)))"

section \<open>The HTTP handlers\<close>

text \<open>
  What a handler writes to its \<^verbatim>\<open>http.ResponseWriter\<close>, as the call that writes it:
  \<^verbatim>\<open>http.Error(w, msg, code)\<close>, \<^verbatim>\<open>http.Redirect(w, r, url, code)\<close> (the url is what
  the handler hands over for the Location header), or an optional
  \<^verbatim>\<open>w.WriteHeader(code)\<close> followed by \<^verbatim>\<open>json.NewEncoder(w).Encode(Response{...})\<close>,
  where the status is 200 when no header was written first.
\<close>

datatype payload = NoData | LinkData Link | LinksData "Link list"

record Response =
  Success :: bool
  Message :: string
  Data :: payload

datatype http_response =
    http_Error string nat
  | http_Redirect string nat
  | WriteJSON nat Response

fun status :: "http_response \<Rightarrow> nat" where
  "status (http_Error msg code) = code"
| "status (http_Redirect url code) = code"
| "status (WriteJSON code resp) = code"

abbreviation StatusOK :: nat where "StatusOK \<equiv> 200"
abbreviation StatusFound :: nat where "StatusFound \<equiv> 302"
abbreviation StatusBadRequest :: nat where "StatusBadRequest \<equiv> 400"
abbreviation StatusNotFound :: nat where "StatusNotFound \<equiv> 404"
abbreviation StatusMethodNotAllowed :: nat where "StatusMethodNotAllowed \<equiv> 405"
abbreviation StatusInternalServerError :: nat where "StatusInternalServerError \<equiv> 500"

text \<open>A response is a server error when its status is one of the 5xx codes.\<close>

definition server_error :: "http_response \<Rightarrow> bool" where
  "server_error resp \<longleftrightarrow> 500 \<le> status resp \<and> status resp < 600"

text \<open>
  \<^verbatim>\<open>handleForward\<close> of \<^verbatim>\<open>cmd/server/main.go\<close>; the argument \<open>shortcode\<close> is
  \<^verbatim>\<open>mux.Vars(r)["shortcode"]\<close>. An absent link sends the browser back to the
  management page.
\<close>

definition handleForward :: "LinkForwarder \<Rightarrow> string \<Rightarrow> http_response" where
  "handleForward lf shortcode =
     (if shortcode = '''' then http_Error ''Shortcode is required'' StatusBadRequest
      else
        (case getURL lf shortcode of
           (url, Some err) \<Rightarrow>
             http_Redirect (''/?shortcode='' @ shortcode @ ''&error=not_found'') StatusFound
         | (url, None) \<Rightarrow> http_Redirect url StatusFound))"

text \<open>
  \<^verbatim>\<open>handleForward\<close> of the older single-file server, which differs in the error
  branch only: a plain 404.
\<close>

definition handleForward_plain :: "LinkForwarder \<Rightarrow> string \<Rightarrow> http_response" where
  "handleForward_plain lf shortcode =
     (if shortcode = '''' then http_Error ''Shortcode is required'' StatusBadRequest
      else
        (case getURL lf shortcode of
           (url, Some err) \<Rightarrow> http_Error ''Link not found'' StatusNotFound
         | (url, None) \<Rightarrow> http_Redirect url StatusFound))"

text \<open>
  A request as \<^verbatim>\<open>handleAPI\<close> reads it: the method, the route variable
  \<^verbatim>\<open>mux.Vars(r)["shortcode"]\<close> (empty on a route without it) and the body as
  \<^verbatim>\<open>json.NewDecoder(r.Body).Decode(&link)\<close> leaves it: \<open>None\<close> when decoding fails,
  the decoded \<open>Link\<close> otherwise (a missing field is the empty string).
\<close>

record Request =
  Method :: string
  Vars_shortcode :: string
  Body :: "Link option"

definition handleAPI ::
    "LinkForwarder \<Rightarrow> timestamp \<Rightarrow> Request \<Rightarrow> http_response \<times> LinkForwarder" where
  "handleAPI lf now r =
     (if Method r = ''GET'' then
        (case getAllLinks lf of
           (links, Some err) \<Rightarrow>
             (WriteJSON StatusInternalServerError
                \<lparr>Success = False, Message = ''Failed to retrieve links'', Data = NoData\<rparr>, lf)
         | (links, None) \<Rightarrow>
             (WriteJSON StatusOK
                \<lparr>Success = True, Message = ''Links retrieved successfully'',
                 Data = LinksData links\<rparr>, lf))
      else if Method r = ''POST'' then
        (case Body r of
           None \<Rightarrow>
             (WriteJSON StatusBadRequest
                \<lparr>Success = False, Message = ''Invalid JSON'', Data = NoData\<rparr>, lf)
         | Some link \<Rightarrow>
             if Shortcode link = '''' \<or> URL link = '''' then
               (WriteJSON StatusBadRequest
                  \<lparr>Success = False, Message = ''Shortcode and URL are required'',
                   Data = NoData\<rparr>, lf)
             else
               (case saveLink lf now (Shortcode link) (URL link) of
                  (Some err, lf') \<Rightarrow>
                    (WriteJSON StatusInternalServerError
                       \<lparr>Success = False, Message = ''Failed to save link'', Data = NoData\<rparr>, lf')
                | (None, lf') \<Rightarrow>
                    (WriteJSON StatusOK
                       \<lparr>Success = True, Message = ''Link saved successfully'',
                        Data = LinkData link\<rparr>, lf')))
      else if Method r = ''DELETE'' then
        (let shortcode = Vars_shortcode r in
         if shortcode = '''' then
           (WriteJSON StatusBadRequest
              \<lparr>Success = False, Message = ''Shortcode is required'', Data = NoData\<rparr>, lf)
         else
           (case deleteLink lf shortcode of
              (Some err, lf') \<Rightarrow>
                (WriteJSON StatusNotFound
                   \<lparr>Success = False, Message = Error err, Data = NoData\<rparr>, lf')
            | (None, lf') \<Rightarrow>
                (WriteJSON StatusOK
                   \<lparr>Success = True, Message = ''Link deleted successfully'',
                    Data = NoData\<rparr>, lf')))
      else
        (WriteJSON StatusMethodNotAllowed
           \<lparr>Success = False, Message = ''Method not allowed'', Data = NoData\<rparr>, lf))"

section \<open>Sequences of upserts\<close>

text \<open>
  A run of \<open>saveLink\<close> calls, each with its shortcode, its url and the second in which it
  runs, as a caller makes them one after the other.
\<close>

fun upsert_all :: "LinkForwarder \<Rightarrow> (string \<times> string \<times> timestamp) list \<Rightarrow> LinkForwarder" where
  "upsert_all lf [] = lf"
| "upsert_all lf ((shortcode, url, now) # rest) =
     upsert_all (snd (saveLink lf now shortcode url)) rest"

text \<open>The store right after \<^verbatim>\<open>initDB\<close> on a new database file.\<close>

definition empty_store :: LinkForwarder where
  "empty_store = \<lparr>db = \<lparr>tbl_links = [], fault = None\<rparr>\<rparr>"

text \<open>
  Reading the table directly, as an operator with the database file would: the row stored
  under a shortcode, its url and its creation time.
\<close>

definition stored_row :: "LinkForwarder \<Rightarrow> string \<Rightarrow> link_row option" where
  "stored_row lf shortcode = find (\<lambda>r. col_shortcode r = shortcode) (tbl_links (db lf))"

definition stored_url :: "LinkForwarder \<Rightarrow> string \<Rightarrow> string option" where
  "stored_url lf shortcode = map_option col_url (stored_row lf shortcode)"

definition stored_created_at :: "LinkForwarder \<Rightarrow> string \<Rightarrow> timestamp option" where
  "stored_created_at lf shortcode = map_option col_created_at (stored_row lf shortcode)"

definition stored_count :: "LinkForwarder \<Rightarrow> string \<Rightarrow> nat" where
  "stored_count lf shortcode =
     length (filter (\<lambda>r. col_shortcode r = shortcode) (tbl_links (db lf)))"

text \<open>The \<open>Link\<close> that \<^verbatim>\<open>rows.Scan(&link.Shortcode, &link.URL)\<close> makes of a row.\<close>

definition link_of_row :: "link_row \<Rightarrow> Link" where
  "link_of_row r = \<lparr>Shortcode = col_shortcode r, URL = col_url r\<rparr>"

text \<open>The url begins with one of the two protocol prefixes.\<close>

definition has_protocol :: "string \<Rightarrow> bool" where
  "has_protocol url \<longleftrightarrow> HasPrefix url ''http://'' \<or> HasPrefix url ''https://''"

section \<open>The Location header of a redirect\<close>






section \<open>Properties of the statements\<close>

lemma find_append_cases:
  "find P (xs @ ys) = (case find P xs of None \<Rightarrow> find P ys | Some x \<Rightarrow> Some x)"
  by (induction xs) auto

lemma find_filter_out: "find P (filter (\<lambda>r. \<not> P r) xs) = None"
  by (induction xs) auto

lemma find_after_replace:
  "find (\<lambda>r. col_shortcode r = k)
     (filter (\<lambda>r. col_shortcode r \<noteq> k) rs @ [\<lparr>col_shortcode = k, col_url = u, col_created_at = t\<rparr>])
   = Some \<lparr>col_shortcode = k, col_url = u, col_created_at = t\<rparr>"
  using find_filter_out [of "\<lambda>r. col_shortcode r = k" rs]
  by (simp add: find_append_cases)

lemma filter_absent:
  "k \<notin> col_shortcode ` set rs \<Longrightarrow> filter (\<lambda>r. col_shortcode r \<noteq> k) rs = rs"
  by (induction rs) auto

lemma count_absent:
  "k \<notin> col_shortcode ` set rs \<Longrightarrow> filter (\<lambda>r. col_shortcode r = k) rs = []"
  by (induction rs) auto

lemma count_present:
  "k \<in> col_shortcode ` set rs \<Longrightarrow> filter (\<lambda>r. col_shortcode r = k) rs \<noteq> []"
  by (induction rs) auto

lemma count_after_replace:
  "filter (\<lambda>r. col_shortcode r = k) (filter (\<lambda>r. col_shortcode r \<noteq> k) rs) = []"
  by (induction rs) auto

lemma filter_filter_same:
  "filter (\<lambda>r. col_shortcode r \<noteq> k) (filter (\<lambda>r. col_shortcode r \<noteq> k) rs) =
   filter (\<lambda>r. col_shortcode r \<noteq> k) rs"
  by (induction rs) auto

lemma map_refresh_others:
  "map (\<lambda>r. if col_shortcode r = k then r\<lparr>col_created_at := t\<rparr> else r)
     (filter (\<lambda>r. col_shortcode r \<noteq> k) rs) = filter (\<lambda>r. col_shortcode r \<noteq> k) rs"
  by (induction rs) auto

lemma https_has_protocol: "has_protocol (''https://'' @ u)"
  by (simp add: has_protocol_def HasPrefix_def)

lemma https_not_same: "''https://'' @ u \<noteq> u"
proof
  assume "''https://'' @ u = u"
  then have "length (''https://'' @ u) = length u" by simp
  then show False by simp
qed

subsection \<open>The repository on a working and on a failing connection\<close>

lemma healthy_saveLink:
  "fault (db lf) = None \<Longrightarrow>
   saveLink lf now k u =
     (None, lf\<lparr>db := (db lf)\<lparr>tbl_links :=
        filter (\<lambda>r. col_shortcode r \<noteq> k) (tbl_links (db lf)) @
        [\<lparr>col_shortcode = k,
          col_url = (if has_protocol u then u else ''https://'' @ u),
          col_created_at = now\<rparr>]\<rparr>\<rparr>)"
  by (simp add: saveLink_def Exec_insert_or_replace_def has_protocol_def Let_def)

lemma healthy_after_saveLink:
  "fault (db lf) = None \<Longrightarrow> fault (db (snd (saveLink lf now k u))) = None"
  by (simp add: healthy_saveLink)

lemma healthy_getURL:
  "fault (db lf) = None \<Longrightarrow>
   getURL lf k = (case stored_row lf k of
                    None \<Rightarrow> ('''', Some (Errorf ''shortcode not found''))
                  | Some r \<Rightarrow> (col_url r, None))"
  by (simp add: getURL_def QueryRow_select_url_def stored_row_def split: option.splits)

lemma scan_rows_map: "scan_rows rs acc = acc @ map link_of_row rs"
  by (induction rs arbitrary: acc) (simp_all add: link_of_row_def)

lemma healthy_getAllLinks:
  "fault (db lf) = None \<Longrightarrow>
   getAllLinks lf = (map link_of_row (order_by_created_at_desc (tbl_links (db lf))), None)"
  by (simp add: getAllLinks_def Query_select_all_def scan_rows_map)

subsection \<open>ORDER BY created_at DESC\<close>

lemma mset_place_desc: "mset (place_desc r rs) = add_mset r (mset rs)"
  by (induction rs) auto

lemma mset_order_by: "mset (order_by_created_at_desc rs) = mset rs"
  by (induction rs) (simp_all add: order_by_created_at_desc_def mset_place_desc)

lemma set_place_desc: "set (place_desc r rs) = insert r (set rs)"
  by (induction rs) auto

lemma descending_place_desc:
  "sorted_wrt (\<lambda>a b. col_created_at b \<le> col_created_at a) rs \<Longrightarrow>
   sorted_wrt (\<lambda>a b. col_created_at b \<le> col_created_at a) (place_desc r rs)"
  by (induction rs) (auto simp: set_place_desc)

lemma descending_order_by:
  "sorted_wrt (\<lambda>a b. col_created_at b \<le> col_created_at a) (order_by_created_at_desc rs)"
  by (induction rs) (simp_all add: order_by_created_at_desc_def descending_place_desc)

lemma place_desc_oldest:
  "\<forall>x \<in> set xs. col_created_at r < col_created_at x \<Longrightarrow> place_desc r xs = xs @ [r]"
  by (induction xs) auto

lemma order_by_increasing:
  "sorted_wrt (\<lambda>a b. col_created_at a < col_created_at b) rs \<Longrightarrow>
   order_by_created_at_desc rs = rev rs"
proof (induction rs)
  case Nil
  show ?case by (simp add: order_by_created_at_desc_def)
next
  case (Cons r rs)
  then have tail: "order_by_created_at_desc rs = rev rs" by simp
  have "order_by_created_at_desc (r # rs) = place_desc r (rev rs)"
    using tail by (simp add: order_by_created_at_desc_def)
  also have "\<dots> = rev rs @ [r]"
    using Cons.prems by (intro place_desc_oldest) simp
  finally show ?case by simp
qed

subsection \<open>A run of upserts with distinct shortcodes\<close>

lemma upsert_all_distinct:
  "fault (db lf) = None \<Longrightarrow> distinct (map fst ups) \<Longrightarrow>
   set (map fst ups) \<inter> col_shortcode ` set (tbl_links (db lf)) = {} \<Longrightarrow>
   fault (db (upsert_all lf ups)) = None \<and>
   map (\<lambda>r. (col_shortcode r, col_created_at r)) (tbl_links (db (upsert_all lf ups))) =
     map (\<lambda>r. (col_shortcode r, col_created_at r)) (tbl_links (db lf)) @
     map (\<lambda>(k, u, t). (k, t)) ups"
proof (induction ups arbitrary: lf)
  case Nil
  then show ?case by simp
next
  case (Cons a ups)
  obtain k u t where a: "a = (k, u, t)" by (cases a) auto
  let ?lf = "snd (saveLink lf t k u)"
  have absent: "k \<notin> col_shortcode ` set (tbl_links (db lf))"
    using Cons.prems(3) a by auto
  have rows: "tbl_links (db ?lf) = tbl_links (db lf) @
      [\<lparr>col_shortcode = k, col_url = (if has_protocol u then u else ''https://'' @ u),
        col_created_at = t\<rparr>]"
    using Cons.prems(1) absent by (simp add: healthy_saveLink filter_absent)
  have h: "fault (db ?lf) = None"
    using Cons.prems(1) by (rule healthy_after_saveLink)
  have d: "distinct (map fst ups)"
    using Cons.prems(2) by simp
  have disj: "set (map fst ups) \<inter> col_shortcode ` set (tbl_links (db ?lf)) = {}"
    using Cons.prems(2,3) a by (auto simp: rows)
  from Cons.IH [OF h d disj] show ?case
    by (simp add: a rows)
qed

section \<open>Upsert followed by lookup\<close>

text \<open>
  Claim C1. On a working connection, \<open>saveLink\<close> succeeds, and the \<open>getURL\<close> that follows
  returns the url unchanged when it begins with \<^verbatim>\<open>http://\<close> or \<^verbatim>\<open>https://\<close> and
  \<^verbatim>\<open>https://\<close> followed by the url when it does not. What is returned begins with one
  of the two prefixes in either case, and a table whose urls all begin with one of them
  stays such a table.
\<close>

theorem saveLink_then_getURL:
  assumes "fault (db lf) = None"
  shows "fst (saveLink lf now shortcode url) = None
       \<and> getURL (snd (saveLink lf now shortcode url)) shortcode =
           (if HasPrefix url ''http://'' \<or> HasPrefix url ''https://'' then url
            else ''https://'' @ url, None)
       \<and> has_protocol (fst (getURL (snd (saveLink lf now shortcode url)) shortcode))
       \<and> ((\<forall>r \<in> set (tbl_links (db lf)). has_protocol (col_url r)) \<longrightarrow>
           (\<forall>r \<in> set (tbl_links (db (snd (saveLink lf now shortcode url)))).
              has_protocol (col_url r)))"
proof -
  let ?lf = "snd (saveLink lf now shortcode url)"
  have ok: "fst (saveLink lf now shortcode url) = None"
    using assms by (simp add: healthy_saveLink)
  have h: "fault (db ?lf) = None"
    using assms by (rule healthy_after_saveLink)
  have row: "stored_row ?lf shortcode =
      Some \<lparr>col_shortcode = shortcode,
            col_url = (if has_protocol url then url else ''https://'' @ url),
            col_created_at = now\<rparr>"
    using assms by (simp add: stored_row_def healthy_saveLink find_after_replace)
  have got: "getURL ?lf shortcode =
      (if HasPrefix url ''http://'' \<or> HasPrefix url ''https://'' then url
       else ''https://'' @ url, None)"
    unfolding healthy_getURL [OF h] row by (simp add: has_protocol_def)
  have pre: "has_protocol (fst (getURL ?lf shortcode))"
    using https_has_protocol [of url] by (simp add: got) (simp add: has_protocol_def)
  have inv: "(\<forall>r \<in> set (tbl_links (db lf)). has_protocol (col_url r)) \<longrightarrow>
      (\<forall>r \<in> set (tbl_links (db ?lf)). has_protocol (col_url r))"
    using assms https_has_protocol [of url] by (auto simp: healthy_saveLink)
  from ok got pre inv show ?thesis by blast
qed

theorem saveLink_then_getURL_witness:
  "fault (db (upsert_all empty_store [(''x'', ''http://example.org'', 3)])) = None
   \<and> list_all (\<lambda>r. has_protocol (col_url r))
        (tbl_links (db (upsert_all empty_store [(''x'', ''http://example.org'', 3)])))
   \<and> getURL (snd (saveLink (upsert_all empty_store [(''x'', ''http://example.org'', 3)]) 7
        ''github'' ''github.com'')) ''github'' = (''https://github.com'', None)
   \<and> getURL (snd (saveLink empty_store 7 ''x'' ''http://example.org'')) ''x'' =
        (''http://example.org'', None)
   \<and> list_all (\<lambda>r. has_protocol (col_url r))
        (tbl_links (db (snd (saveLink
          (upsert_all empty_store [(''x'', ''http://example.org'', 3)]) 7
          ''github'' ''github.com''))))"
  using saveLink_then_getURL
      [of "upsert_all empty_store [(''x'', ''http://example.org'', 3)]" 7
          "''github''" "''github.com''"]
    saveLink_then_getURL [of empty_store 7 "''x''" "''http://example.org''"]
  by (simp add: empty_store_def saveLink_def Exec_insert_or_replace_def HasPrefix_def
      has_protocol_def)

section \<open>Applying the same upsert twice\<close>

text \<open>
  Claim C2, as the code has it. On a working connection, applying \<open>saveLink\<close> twice with
  the same shortcode and url succeeds, leaves exactly one row for that shortcode, and leaves
  the table as it was after the first application except for the \<open>created_at\<close> of that
  row, which is the second of the second application: every row keeps its shortcode, its
  url and its place. The store then equals the store after one application made in that
  second, and equals the store after the first application when both run in the same
  second.
\<close>

theorem saveLink_twice:
  assumes "fault (db lf) = None"
  shows "fst (saveLink (snd (saveLink lf t1 shortcode url)) t2 shortcode url) = None
       \<and> stored_count (snd (saveLink (snd (saveLink lf t1 shortcode url)) t2 shortcode url))
           shortcode = 1
       \<and> tbl_links (db (snd (saveLink (snd (saveLink lf t1 shortcode url)) t2 shortcode url))) =
           map (\<lambda>r. if col_shortcode r = shortcode then r\<lparr>col_created_at := t2\<rparr> else r)
             (tbl_links (db (snd (saveLink lf t1 shortcode url))))
       \<and> map link_of_row
           (tbl_links (db (snd (saveLink (snd (saveLink lf t1 shortcode url)) t2 shortcode url)))) =
           map link_of_row (tbl_links (db (snd (saveLink lf t1 shortcode url))))
       \<and> snd (saveLink (snd (saveLink lf t1 shortcode url)) t2 shortcode url) =
           snd (saveLink lf t2 shortcode url)
       \<and> (t1 = t2 \<longrightarrow>
            snd (saveLink (snd (saveLink lf t1 shortcode url)) t2 shortcode url) =
            snd (saveLink lf t1 shortcode url))"
proof -
  let ?once = "snd (saveLink lf t1 shortcode url)"
  have h1: "fault (db ?once) = None"
    using assms by (rule healthy_after_saveLink)
  have once: "tbl_links (db ?once) =
      filter (\<lambda>r. col_shortcode r \<noteq> shortcode) (tbl_links (db lf)) @
      [\<lparr>col_shortcode = shortcode,
        col_url = (if has_protocol url then url else ''https://'' @ url),
        col_created_at = t1\<rparr>]"
    using assms by (simp add: healthy_saveLink)
  have twice: "saveLink ?once t2 shortcode url =
      (None, ?once\<lparr>db := (db ?once)\<lparr>tbl_links :=
        filter (\<lambda>r. col_shortcode r \<noteq> shortcode) (tbl_links (db lf)) @
        [\<lparr>col_shortcode = shortcode,
          col_url = (if has_protocol url then url else ''https://'' @ url),
          col_created_at = t2\<rparr>]\<rparr>\<rparr>)"
    by (simp add: healthy_saveLink [OF h1] once filter_filter_same)
  have c1: "fst (saveLink ?once t2 shortcode url) = None"
    by (simp add: twice)
  have c2: "stored_count (snd (saveLink ?once t2 shortcode url)) shortcode = 1"
    by (simp add: twice stored_count_def count_after_replace)
  have c3: "tbl_links (db (snd (saveLink ?once t2 shortcode url))) =
      map (\<lambda>r. if col_shortcode r = shortcode then r\<lparr>col_created_at := t2\<rparr> else r)
        (tbl_links (db ?once))"
    by (simp add: twice once map_refresh_others)
  have c4: "map link_of_row (tbl_links (db (snd (saveLink ?once t2 shortcode url)))) =
      map link_of_row (tbl_links (db ?once))"
    by (simp add: twice once link_of_row_def)
  have c5: "snd (saveLink ?once t2 shortcode url) = snd (saveLink lf t2 shortcode url)"
    using assms by (simp add: twice healthy_saveLink)
  have c6: "t1 = t2 \<longrightarrow> snd (saveLink ?once t2 shortcode url) = ?once"
    using c5 by auto
  from c1 c2 c3 c4 c5 c6 show ?thesis by blast
qed

theorem saveLink_twice_witness:
  "fault (db empty_store) = None
   \<and> stored_count (snd (saveLink (snd (saveLink empty_store 1 ''gh'' ''github.com'')) 2
        ''gh'' ''github.com'')) ''gh'' = 1
   \<and> tbl_links (db (snd (saveLink (snd (saveLink empty_store 1 ''gh'' ''github.com'')) 2
        ''gh'' ''github.com''))) =
       [\<lparr>col_shortcode = ''gh'', col_url = ''https://github.com'', col_created_at = 2\<rparr>]
   \<and> snd (saveLink (snd (saveLink empty_store 1 ''gh'' ''github.com'')) 1 ''gh'' ''github.com'')
       = snd (saveLink empty_store 1 ''gh'' ''github.com'')"
  using saveLink_twice [of empty_store 1 "''gh''" "''github.com''" 2]
    saveLink_twice [of empty_store 1 "''gh''" "''github.com''" 1]
  by (simp add: empty_store_def saveLink_def Exec_insert_or_replace_def HasPrefix_def)

text \<open>
  The claim as the specification words it fails when a second passes between the two
  applications: the store after both is not the store after the first.
\<close>

theorem saveLink_twice_counterexample:
  "upsert_all empty_store [(''gh'', ''github.com'', 1), (''gh'', ''github.com'', 2)]
   \<noteq> upsert_all empty_store [(''gh'', ''github.com'', 1)]"
  by (simp add: empty_store_def saveLink_def Exec_insert_or_replace_def HasPrefix_def)

section \<open>Delete\<close>

text \<open>
  Claim C3. On a working connection, \<open>deleteLink\<close> of a shortcode that no row carries
  returns the error \<^verbatim>\<open>shortcode not found\<close> and leaves the store as it was;
  \<open>deleteLink\<close> of a shortcode that a row carries returns no error and removes the row,
  so that the \<open>getURL\<close> that follows returns \<^verbatim>\<open>shortcode not found\<close>.
\<close>

theorem deleteLink_absent_or_present:
  assumes "fault (db lf) = None"
  shows "(shortcode \<notin> col_shortcode ` set (tbl_links (db lf)) \<longrightarrow>
            deleteLink lf shortcode = (Some (Errorf ''shortcode not found''), lf))
       \<and> (shortcode \<in> col_shortcode ` set (tbl_links (db lf)) \<longrightarrow>
            fst (deleteLink lf shortcode) = None
          \<and> stored_row (snd (deleteLink lf shortcode)) shortcode = None
          \<and> getURL (snd (deleteLink lf shortcode)) shortcode =
              ('''', Some (Errorf ''shortcode not found'')))"
proof (intro conjI impI)
  assume absent: "shortcode \<notin> col_shortcode ` set (tbl_links (db lf))"
  show "deleteLink lf shortcode = (Some (Errorf ''shortcode not found''), lf)"
    using assms absent
    by (simp add: deleteLink_def Exec_delete_def filter_absent count_absent)
next
  assume present: "shortcode \<in> col_shortcode ` set (tbl_links (db lf))"
  have after: "deleteLink lf shortcode =
      (None, lf\<lparr>db := (db lf)\<lparr>tbl_links :=
         filter (\<lambda>r. col_shortcode r \<noteq> shortcode) (tbl_links (db lf))\<rparr>\<rparr>)"
    using assms count_present [OF present]
    by (simp add: deleteLink_def Exec_delete_def)
  show "fst (deleteLink lf shortcode) = None"
    by (simp add: after)
  show gone: "stored_row (snd (deleteLink lf shortcode)) shortcode = None"
    by (simp add: after stored_row_def find_filter_out)
  show "getURL (snd (deleteLink lf shortcode)) shortcode =
          ('''', Some (Errorf ''shortcode not found''))"
    using gone assms by (simp add: healthy_getURL after)
qed

theorem deleteLink_absent_or_present_witness:
  "fault (db empty_store) = None
   \<and> ''missing'' \<notin> col_shortcode ` set (tbl_links (db empty_store))
   \<and> deleteLink empty_store ''missing'' = (Some (Errorf ''shortcode not found''), empty_store)
   \<and> ''x'' \<in> col_shortcode `
        set (tbl_links (db (upsert_all empty_store [(''x'', ''http://example.org'', 3)])))
   \<and> fst (deleteLink (upsert_all empty_store [(''x'', ''http://example.org'', 3)]) ''x'') = None
   \<and> getURL (snd (deleteLink (upsert_all empty_store [(''x'', ''http://example.org'', 3)]) ''x''))
        ''x'' = ('''', Some (Errorf ''shortcode not found''))"
  using deleteLink_absent_or_present [of empty_store "''missing''"]
    deleteLink_absent_or_present
      [of "upsert_all empty_store [(''x'', ''http://example.org'', 3)]" "''x''"]
  by (simp add: empty_store_def saveLink_def Exec_insert_or_replace_def HasPrefix_def)

section \<open>Listing\<close>

text \<open>
  Claim C4. \<open>getAllLinks\<close> on the empty store returns the empty sequence and no error.
  After upserts with pairwise distinct shortcodes into the empty store, it returns no
  error and as many links as there were upserts; the table holds one row for each
  upsert, created in the second of that upsert; and the links returned are those rows in
  an order in which the creation times never increase, newest first. When every upsert ran
  in a later second than the one before, that order is the reverse of the order of the
  upserts.
\<close>

theorem getAllLinks_after_upserts:
  "getAllLinks empty_store = ([], None)
   \<and> (distinct (map fst ups) \<longrightarrow>
        snd (getAllLinks (upsert_all empty_store ups)) = None
      \<and> length (fst (getAllLinks (upsert_all empty_store ups))) = length ups
      \<and> map (\<lambda>r. (col_shortcode r, col_created_at r))
           (tbl_links (db (upsert_all empty_store ups))) = map (\<lambda>(k, u, t). (k, t)) ups
      \<and> (\<exists>rs. mset rs = mset (tbl_links (db (upsert_all empty_store ups)))
              \<and> sorted_wrt (\<lambda>a b. col_created_at b \<le> col_created_at a) rs
              \<and> fst (getAllLinks (upsert_all empty_store ups)) = map link_of_row rs)
      \<and> (sorted_wrt (<) (map (\<lambda>(k, u, t). t) ups) \<longrightarrow>
            map Shortcode (fst (getAllLinks (upsert_all empty_store ups))) = rev (map fst ups)))"
proof (intro conjI impI)
  show "getAllLinks empty_store = ([], None)"
    by (simp add: healthy_getAllLinks empty_store_def order_by_created_at_desc_def)
next
  assume d: "distinct (map fst ups)"
  let ?lf = "upsert_all empty_store ups"
  have start: "fault (db empty_store) = None"
    "set (map fst ups) \<inter> col_shortcode ` set (tbl_links (db empty_store)) = {}"
    by (simp_all add: empty_store_def)
  have h: "fault (db ?lf) = None"
    and keys: "map (\<lambda>r. (col_shortcode r, col_created_at r)) (tbl_links (db ?lf)) =
                 map (\<lambda>(k, u, t). (k, t)) ups"
    using upsert_all_distinct [OF start(1) d start(2)] by (simp_all add: empty_store_def)
  have n: "length (tbl_links (db ?lf)) = length ups"
    using arg_cong [OF keys, of length] by simp
  show "snd (getAllLinks ?lf) = None"
    by (simp add: healthy_getAllLinks [OF h])
  show "length (fst (getAllLinks ?lf)) = length ups"
    using n arg_cong [OF mset_order_by [of "tbl_links (db ?lf)"], of size]
    by (simp add: healthy_getAllLinks [OF h])
  show "map (\<lambda>r. (col_shortcode r, col_created_at r)) (tbl_links (db ?lf)) =
          map (\<lambda>(k, u, t). (k, t)) ups"
    by (rule keys)
  show "\<exists>rs. mset rs = mset (tbl_links (db ?lf))
            \<and> sorted_wrt (\<lambda>a b. col_created_at b \<le> col_created_at a) rs
            \<and> fst (getAllLinks ?lf) = map link_of_row rs"
    by (rule exI [of _ "order_by_created_at_desc (tbl_links (db ?lf))"])
       (simp add: mset_order_by descending_order_by healthy_getAllLinks [OF h])
next
  assume d: "distinct (map fst ups)"
    and inc: "sorted_wrt (<) (map (\<lambda>(k, u, t). t) ups)"
  let ?lf = "upsert_all empty_store ups"
  have start: "fault (db empty_store) = None"
    "set (map fst ups) \<inter> col_shortcode ` set (tbl_links (db empty_store)) = {}"
    by (simp_all add: empty_store_def)
  have h: "fault (db ?lf) = None"
    and keys: "map (\<lambda>r. (col_shortcode r, col_created_at r)) (tbl_links (db ?lf)) =
                 map (\<lambda>(k, u, t). (k, t)) ups"
    using upsert_all_distinct [OF start(1) d start(2)] by (simp_all add: empty_store_def)
  have times: "map col_created_at (tbl_links (db ?lf)) = map (\<lambda>(k, u, t). t) ups"
    using arg_cong [OF keys, of "map snd"] by (simp add: comp_def case_prod_unfold)
  have codes: "map col_shortcode (tbl_links (db ?lf)) = map fst ups"
    using arg_cong [OF keys, of "map fst"] by (simp add: comp_def case_prod_unfold)
  have "sorted_wrt (<) (map col_created_at (tbl_links (db ?lf)))"
    using inc by (simp add: times)
  then have "sorted_wrt (\<lambda>a b. col_created_at a < col_created_at b) (tbl_links (db ?lf))"
    by (simp add: sorted_wrt_map)
  then have "order_by_created_at_desc (tbl_links (db ?lf)) = rev (tbl_links (db ?lf))"
    by (rule order_by_increasing)
  then have "map Shortcode (fst (getAllLinks ?lf)) = rev (map col_shortcode (tbl_links (db ?lf)))"
    by (simp add: healthy_getAllLinks [OF h] rev_map link_of_row_def comp_def)
  then show "map Shortcode (fst (getAllLinks ?lf)) = rev (map fst ups)"
    by (simp add: codes)
qed

theorem getAllLinks_after_upserts_witness:
  "distinct (map fst [(''a'', ''a.com'', 5::nat), (''b'', ''http://b.org'', 6), (''c'', ''c.net'', 9)])
   \<and> sorted_wrt (<) (map (\<lambda>(k, u, t). t)
        [(''a'', ''a.com'', 5::nat), (''b'', ''http://b.org'', 6), (''c'', ''c.net'', 9)])
   \<and> length (fst (getAllLinks (upsert_all empty_store
        [(''a'', ''a.com'', 5), (''b'', ''http://b.org'', 6), (''c'', ''c.net'', 9)]))) = 3
   \<and> map Shortcode (fst (getAllLinks (upsert_all empty_store
        [(''a'', ''a.com'', 5), (''b'', ''http://b.org'', 6), (''c'', ''c.net'', 9)])))
      = [''c'', ''b'', ''a'']"
  using getAllLinks_after_upserts
    [of "[(''a'', ''a.com'', 5), (''b'', ''http://b.org'', 6), (''c'', ''c.net'', 9)]"]
  by simp

section \<open>The creation time under an overwrite\<close>

text \<open>
  Claim C5, as the code has it. On a working connection, \<open>saveLink\<close> for a shortcode
  that already has a row replaces that row, and the row's \<open>created_at\<close> is then the second
  of this \<open>saveLink\<close>: the statement is \<^verbatim>\<open>INSERT OR REPLACE\<close> and does not list the
  column, so its default is taken anew. The creation time is the same as before exactly
  when the overwrite runs in the second of the earlier insertion.
\<close>

theorem saveLink_refreshes_created_at:
  assumes "fault (db lf) = None" and "stored_created_at lf shortcode = Some t0"
  shows "stored_created_at (snd (saveLink lf now shortcode url)) shortcode = Some now
       \<and> (stored_created_at (snd (saveLink lf now shortcode url)) shortcode =
            stored_created_at lf shortcode \<longleftrightarrow> now = t0)"
proof -
  have "stored_created_at (snd (saveLink lf now shortcode url)) shortcode = Some now"
    using assms(1)
    by (simp add: healthy_saveLink stored_created_at_def stored_row_def find_after_replace)
  with assms(2) show ?thesis by auto
qed

theorem saveLink_refreshes_created_at_witness:
  "fault (db (upsert_all empty_store [(''gh'', ''github.com'', 1)])) = None
   \<and> stored_created_at (upsert_all empty_store [(''gh'', ''github.com'', 1)]) ''gh'' = Some 1
   \<and> stored_created_at
        (snd (saveLink (upsert_all empty_store [(''gh'', ''github.com'', 1)]) 2 ''gh'' ''github.com''))
        ''gh'' = Some 2"
  using saveLink_refreshes_created_at
    [of "upsert_all empty_store [(''gh'', ''github.com'', 1)]" "''gh''" 1 2 "''github.com''"]
  by (simp add: empty_store_def saveLink_def Exec_insert_or_replace_def HasPrefix_def
      stored_created_at_def stored_row_def)

text \<open>
  A link inserted in second 1 and overwritten in second 2 has the creation time 2, not 1.
\<close>

theorem created_at_overwritten_counterexample:
  "stored_created_at (upsert_all empty_store [(''gh'', ''github.com'', 1)]) ''gh'' = Some 1
   \<and> stored_created_at
        (upsert_all empty_store [(''gh'', ''github.com'', 1), (''gh'', ''github.com'', 2)]) ''gh''
      = Some 2
   \<and> stored_created_at
        (upsert_all empty_store [(''gh'', ''github.com'', 1), (''gh'', ''github.com'', 2)]) ''gh''
      \<noteq> stored_created_at (upsert_all empty_store [(''gh'', ''github.com'', 1)]) ''gh''"
  by (simp add: empty_store_def saveLink_def Exec_insert_or_replace_def HasPrefix_def
      stored_created_at_def stored_row_def)

section \<open>Properties of the escaping\<close>





section \<open>The forwarding handler\<close>

text \<open>
  Claim C6, as the code has it. For a request with a non-empty shortcode, every error of
  \<open>getURL\<close>, the \<^verbatim>\<open>shortcode not found\<close> of an absent link and an error of the store
  alike, gets the not-found answer of the deployment: the redirect to the management page
  with the shortcode and the marker \<^verbatim>\<open>error=not_found\<close> in \<^verbatim>\<open>cmd/server/main.go\<close>,
  the plain 404 in the single-file server. Neither answer is a server error.
\<close>

theorem handleForward_any_error:
  assumes "shortcode \<noteq> ''''" and "snd (getURL lf shortcode) = Some err"
  shows "handleForward lf shortcode =
           http_Redirect (''/?shortcode='' @ shortcode @ ''&error=not_found'') StatusFound
       \<and> handleForward_plain lf shortcode = http_Error ''Link not found'' StatusNotFound
       \<and> \<not> server_error (handleForward lf shortcode)
       \<and> \<not> server_error (handleForward_plain lf shortcode)"
proof -
  obtain u where "getURL lf shortcode = (u, Some err)"
    using assms(2) by (cases "getURL lf shortcode") simp
  then show ?thesis
    using assms(1) by (simp add: handleForward_def handleForward_plain_def server_error_def)
qed

theorem handleForward_any_error_witness:
  "''x'' \<noteq> ''''
   \<and> snd (getURL empty_store ''x'') = Some (Errorf ''shortcode not found'')
   \<and> snd (getURL \<lparr>db = \<lparr>tbl_links = [], fault = Some ''disk I/O error''\<rparr>\<rparr> ''x'') =
       Some (DriverError ''disk I/O error'')
   \<and> handleForward empty_store ''x'' =
       http_Redirect ''/?shortcode=x&error=not_found'' StatusFound
   \<and> handleForward \<lparr>db = \<lparr>tbl_links = [], fault = Some ''disk I/O error''\<rparr>\<rparr> ''x'' =
       http_Redirect ''/?shortcode=x&error=not_found'' StatusFound
   \<and> handleForward_plain \<lparr>db = \<lparr>tbl_links = [], fault = Some ''disk I/O error''\<rparr>\<rparr> ''x'' =
       http_Error ''Link not found'' StatusNotFound"
  using handleForward_any_error [of "''x''" empty_store "Errorf ''shortcode not found''"]
    handleForward_any_error [of "''x''" "\<lparr>db = \<lparr>tbl_links = [], fault = Some ''disk I/O error''\<rparr>\<rparr>"
      "DriverError ''disk I/O error''"]
  by (simp add: getURL_def QueryRow_select_url_def empty_store_def)

text \<open>
  With a store that fails with a disk error, the lookup returns the store's error and not
  \<^verbatim>\<open>shortcode not found\<close>, yet either handler answers as it does for an absent link,
  and not with a server error.
\<close>

theorem handleForward_store_error_counterexample:
  "getURL \<lparr>db = \<lparr>tbl_links = [], fault = Some ''disk I/O error''\<rparr>\<rparr> ''x'' =
     ('''', Some (DriverError ''disk I/O error''))
   \<and> getURL empty_store ''x'' = ('''', Some (Errorf ''shortcode not found''))
   \<and> handleForward \<lparr>db = \<lparr>tbl_links = [], fault = Some ''disk I/O error''\<rparr>\<rparr> ''x'' =
       handleForward empty_store ''x''
   \<and> handleForward_plain \<lparr>db = \<lparr>tbl_links = [], fault = Some ''disk I/O error''\<rparr>\<rparr> ''x'' =
       handleForward_plain empty_store ''x''
   \<and> \<not> server_error (handleForward \<lparr>db = \<lparr>tbl_links = [], fault = Some ''disk I/O error''\<rparr>\<rparr> ''x'')
   \<and> \<not> server_error
         (handleForward_plain \<lparr>db = \<lparr>tbl_links = [], fault = Some ''disk I/O error''\<rparr>\<rparr> ''x'')"
  by (simp add: getURL_def QueryRow_select_url_def empty_store_def handleForward_def
      handleForward_plain_def server_error_def)




section \<open>The management API\<close>




text \<open>
  Claim C8, as the code has it. A POST with a non-empty shortcode and a non-empty url
  against a working store gets the status 200 and the success envelope whose data is the
  link of the request body as it was decoded. The store then holds the url with
  \<^verbatim>\<open>https://\<close> put before it unless it began with one of the two prefixes, so the
  data shows the stored url exactly when the url of the request began with one of them.
\<close>

theorem handleAPI_POST_echoes_request:
  assumes "Method r = ''POST''" and "Body r = Some link"
    and "Shortcode link \<noteq> ''''" and "URL link \<noteq> ''''"
    and "fault (db lf) = None"
  shows "fst (handleAPI lf now r) =
           WriteJSON StatusOK
             \<lparr>Success = True, Message = ''Link saved successfully'', Data = LinkData link\<rparr>
       \<and> stored_url (snd (handleAPI lf now r)) (Shortcode link) =
           Some (if has_protocol (URL link) then URL link else ''https://'' @ URL link)
       \<and> (stored_url (snd (handleAPI lf now r)) (Shortcode link) = Some (URL link)
            \<longleftrightarrow> has_protocol (URL link))"
proof -
  have "''POST'' \<noteq> ''GET''" by simp
  then have api: "handleAPI lf now r =
      (WriteJSON StatusOK
         \<lparr>Success = True, Message = ''Link saved successfully'', Data = LinkData link\<rparr>,
       snd (saveLink lf now (Shortcode link) (URL link)))"
    using assms by (simp add: handleAPI_def healthy_saveLink)
  have stored: "stored_url (snd (saveLink lf now (Shortcode link) (URL link))) (Shortcode link) =
      Some (if has_protocol (URL link) then URL link else ''https://'' @ URL link)"
    using assms(5) by (simp add: healthy_saveLink stored_url_def stored_row_def find_after_replace)
  show ?thesis
    using https_not_same [of "URL link"] by (simp add: api stored)
qed

theorem handleAPI_POST_echoes_request_witness:
  "Method \<lparr>Method = ''POST'', Vars_shortcode = '''',
            Body = Some \<lparr>Shortcode = ''gh'', URL = ''github.com''\<rparr>\<rparr> = ''POST''
   \<and> Shortcode \<lparr>Shortcode = ''gh'', URL = ''github.com''\<rparr> \<noteq> ''''
   \<and> URL \<lparr>Shortcode = ''gh'', URL = ''github.com''\<rparr> \<noteq> ''''
   \<and> fault (db empty_store) = None
   \<and> fst (handleAPI empty_store 3
        \<lparr>Method = ''POST'', Vars_shortcode = '''',
         Body = Some \<lparr>Shortcode = ''gh'', URL = ''github.com''\<rparr>\<rparr>) =
       WriteJSON StatusOK
         \<lparr>Success = True, Message = ''Link saved successfully'',
          Data = LinkData \<lparr>Shortcode = ''gh'', URL = ''github.com''\<rparr>\<rparr>
   \<and> stored_url (snd (handleAPI empty_store 3
        \<lparr>Method = ''POST'', Vars_shortcode = '''',
         Body = Some \<lparr>Shortcode = ''gh'', URL = ''github.com''\<rparr>\<rparr>)) ''gh'' =
       Some ''https://github.com''"
  using handleAPI_POST_echoes_request
    [of "\<lparr>Method = ''POST'', Vars_shortcode = '''',
          Body = Some \<lparr>Shortcode = ''gh'', URL = ''github.com''\<rparr>\<rparr>"
        "\<lparr>Shortcode = ''gh'', URL = ''github.com''\<rparr>" empty_store 3]
  by (simp add: empty_store_def has_protocol_def HasPrefix_def)

text \<open>
  A POST of the url \<^verbatim>\<open>github.com\<close> stores \<^verbatim>\<open>https://github.com\<close> and answers with
  \<^verbatim>\<open>github.com\<close> in the data of the envelope.
\<close>

theorem handleAPI_POST_raw_echo_counterexample:
  "handleAPI empty_store 3
     \<lparr>Method = ''POST'', Vars_shortcode = '''',
      Body = Some \<lparr>Shortcode = ''gh'', URL = ''github.com''\<rparr>\<rparr> =
   (WriteJSON StatusOK
      \<lparr>Success = True, Message = ''Link saved successfully'',
       Data = LinkData \<lparr>Shortcode = ''gh'', URL = ''github.com''\<rparr>\<rparr>,
    \<lparr>db = \<lparr>tbl_links =
       [\<lparr>col_shortcode = ''gh'', col_url = ''https://github.com'', col_created_at = 3\<rparr>],
       fault = None\<rparr>\<rparr>)
   \<and> \<not> has_protocol ''github.com''"
  by (simp add: handleAPI_def saveLink_def Exec_insert_or_replace_def empty_store_def
      has_protocol_def HasPrefix_def)

section \<open>Where the empty shortcode is refused\<close>

text \<open>
  Claim C10. On a working connection, \<open>saveLink\<close> with the empty shortcode succeeds for
  every url and leaves exactly one row under the empty shortcode, holding the url with its
  protocol; the same shortcode and url sent as a POST to \<open>handleAPI\<close> get the status 400
  and leave the store untouched. The check is in the handler, not in \<open>saveLink\<close>.
\<close>

theorem saveLink_empty_shortcode:
  assumes "fault (db lf) = None"
  shows "fst (saveLink lf now '''' url) = None
       \<and> stored_count (snd (saveLink lf now '''' url)) '''' = 1
       \<and> stored_url (snd (saveLink lf now '''' url)) '''' =
           Some (if has_protocol url then url else ''https://'' @ url)
       \<and> handleAPI lf now
           \<lparr>Method = ''POST'', Vars_shortcode = v, Body = Some \<lparr>Shortcode = '''', URL = url\<rparr>\<rparr> =
           (WriteJSON StatusBadRequest
              \<lparr>Success = False, Message = ''Shortcode and URL are required'', Data = NoData\<rparr>,
            lf)"
  using assms
  by (simp add: healthy_saveLink stored_url_def stored_row_def stored_count_def
      find_after_replace count_after_replace handleAPI_def)

theorem saveLink_empty_shortcode_witness:
  "fault (db empty_store) = None
   \<and> saveLink empty_store 2 '''' ''a.com'' =
       (None, \<lparr>db = \<lparr>tbl_links =
          [\<lparr>col_shortcode = '''', col_url = ''https://a.com'', col_created_at = 2\<rparr>],
          fault = None\<rparr>\<rparr>)
   \<and> status (fst (handleAPI empty_store 2
        \<lparr>Method = ''POST'', Vars_shortcode = '''',
         Body = Some \<lparr>Shortcode = '''', URL = ''a.com''\<rparr>\<rparr>)) = StatusBadRequest"
  using saveLink_empty_shortcode [of empty_store 2 "''a.com''" "''''"]
  by (simp add: empty_store_def saveLink_def Exec_insert_or_replace_def HasPrefix_def)

end
